theory Spec2Isabelle
  imports Main "HOL-Library.Word"
begin

unbundle bit_operations_syntax

section \<open>The chat server of user/chatserver.c\<close>

text \<open>
  The server keeps a fixed table of client slots and reacts to the results of
  \<open>net_poll\<close>. The model keeps the globals of the C file in a record, and records
  every system call and every console line the program issues in a trace, in the order in
  which they happen. The answers of the outside world (what \<open>read\<close>, \<open>write\<close>,
  \<open>accept\<close> and \<open>net_poll\<close> return) are functions of that history, so that any
  deterministic environment is covered.
\<close>

subsection \<open>Constants and C strings\<close>

definition MAX_CLIENTS :: nat where
  "MAX_CLIENTS = 14"

definition BUF_SIZE :: nat where
  "BUF_SIZE = 512"

definition SERVER_PORT :: int where
  "SERVER_PORT = 80"

definition POLLIN :: int where
  "POLLIN = 0x001"

definition POLLERR :: int where
  "POLLERR = 0x008"

definition POLLHUP :: int where
  "POLLHUP = 0x010"

definition NUL :: char where
  "NUL = CHR 0x00"

definition LF :: char where
  "LF = CHR 0x0A"

definition CR :: char where
  "CR = CHR 0x0D"

text \<open>
  A \<open>char\<close> array that the code reads as a C string: the bytes before the first NUL.
\<close>

definition cstr :: "char list \<Rightarrow> char list" where
  "cstr a = takeWhile (\<lambda>c. c \<noteq> NUL) a"

text \<open>
  \<open>strcpy(dst, src)\<close> for a source C string \<open>src\<close>: its bytes and the terminating NUL
  overwrite the front of \<open>dst\<close>, the bytes behind stay.
\<close>

definition strcpy :: "char list \<Rightarrow> char list \<Rightarrow> char list" where
  "strcpy dst src = cstr src @ [NUL] @ drop (length (cstr src) + 1) dst"

subsection \<open>Data\<close>

record client =
  fd :: int
  active :: bool
  name :: "char list"
  addr :: "32 word"
  port :: "16 word"

text \<open>The lines the server prints on its console, one constructor per \<open>printf\<close>.\<close>

datatype logmsg =
    Banner
  | Binding
  | SocketFailed
  | BindFailed
  | ListenFailed
  | Listening
  | Disconnected "char list" nat int
  | SendFailed nat
  | AcceptFailed
  | ServerFull
  | NewClient nat int
  | Chat "char list"
  | PollError
  | ServerSockError
  | ShuttingDown

datatype event =
    EvSocket
  | EvBind int
  | EvListen int nat
  | EvFcntl int int int
  | EvAccept int
  | EvRead int
  | EvWrite int "char list"
  | EvClose int
  | EvPoll "int list"
  | EvLog logmsg
  | EvExit int

record state =
  clients :: "client list"
  server_sock :: int
  num_clients :: int
  trace :: "event list"

text \<open>
  What a \<open>read\<close> on a socket can yield (section 4.1 of the specification): bytes, an
  orderly end of file, the not-ready indication, or a hard failure.
\<close>

datatype read_result = RData "char list" | REof | RNotReady | RError

text \<open>
  Modelled from the spec: the return convention of the \<open>read\<close> system call; the kernel
  side (kernel/socket.c) is not among the sources. The repository's notes give it as:
  the number of bytes when there is data, 0 at end of file, and -1 both for the not-ready
  indication (EAGAIN, kept in the kernel's per-process error number) and for a failure.
  user/user.h declares \<open>int read(int, void*, int)\<close> and nothing that reads an error
  number, so the integer is all the server sees.
\<close>

fun read_ret :: "read_result \<Rightarrow> int" where
  "read_ret (RData bs) = int (length bs)"
| "read_ret REof = 0"
| "read_ret RNotReady = -1"
| "read_ret RError = -1"

fun read_buf :: "read_result \<Rightarrow> char list" where
  "read_buf (RData bs) = bs"
| "read_buf _ = []"

text \<open>
  The environment. Each function is given the history up to and including the call it
  answers. \<open>accept_res\<close> gives the new descriptor (negative on failure) with the peer's
  address and port; \<open>poll_res\<close> gives the return value of \<open>net_poll\<close> and the
  \<open>revents\<close> it stored, entry by entry.
\<close>

record env =
  socket_res :: "event list \<Rightarrow> int"
  bind_res :: "event list \<Rightarrow> int"
  listen_res :: "event list \<Rightarrow> int"
  accept_res :: "event list \<Rightarrow> int \<times> 32 word \<times> 16 word"
  read_res :: "event list \<Rightarrow> read_result"
  write_res :: "event list \<Rightarrow> int"
  poll_res :: "event list \<Rightarrow> int \<times> int list"

definition emit :: "event \<Rightarrow> state \<Rightarrow> state" where
  "emit ev s = s\<lparr>trace := trace s @ [ev]\<rparr>"

definition printf :: "logmsg \<Rightarrow> state \<Rightarrow> state" where
  "printf m s = emit (EvLog m) s"

definition sys_close :: "int \<Rightarrow> state \<Rightarrow> state" where
  "sys_close h s = emit (EvClose h) s"

definition sys_write :: "env \<Rightarrow> int \<Rightarrow> char list \<Rightarrow> state \<Rightarrow> int \<times> state" where
  "sys_write e h msg s = (let s1 = emit (EvWrite h msg) s in (write_res e (trace s1), s1))"

text \<open>\<open>read(fd, buf, cnt)\<close> delivers at most \<open>cnt\<close> bytes.\<close>

definition sys_read :: "env \<Rightarrow> int \<Rightarrow> nat \<Rightarrow> state \<Rightarrow> read_result \<times> state" where
  "sys_read e h cnt s =
     (let s1 = emit (EvRead h) s
      in (case read_res e (trace s1) of RData bs \<Rightarrow> RData (take cnt bs) | r \<Rightarrow> r, s1))"

definition sys_accept :: "env \<Rightarrow> int \<Rightarrow> state \<Rightarrow> (int \<times> 32 word \<times> 16 word) \<times> state" where
  "sys_accept e h s = (let s1 = emit (EvAccept h) s in (accept_res e (trace s1), s1))"

subsection \<open>The connection registry\<close>

text \<open>
  \<open>init_clients\<close>: the table is a static array, so every byte of it is zero before the
  loop runs; the loop then sets \<open>fd\<close>, \<open>active\<close> and the first byte of \<open>name\<close>.
\<close>

definition zero_client :: client where
  "zero_client = \<lparr>fd = 0, active = False, name = replicate 32 NUL, addr = 0, port = 0\<rparr>"

definition init_clients :: "state \<Rightarrow> state" where
  "init_clients s =
     s\<lparr>clients := map (\<lambda>c. c\<lparr>fd := -1, active := False, name := (name c)[0 := NUL]\<rparr>) (clients s)\<rparr>"

definition start_state :: state where
  "start_state = \<lparr>clients = replicate MAX_CLIENTS zero_client, server_sock = -1,
                   num_clients = 0, trace = []\<rparr>"

fun find_empty_loop :: "client list \<Rightarrow> nat list \<Rightarrow> int" where
  "find_empty_loop cs [] = -1"
| "find_empty_loop cs (i # is) = (if \<not> active (cs ! i) then int i else find_empty_loop cs is)"

definition find_empty_slot :: "state \<Rightarrow> int" where
  "find_empty_slot s = find_empty_loop (clients s) [0..<MAX_CLIENTS]"

definition remove_client :: "int \<Rightarrow> state \<Rightarrow> state" where
  "remove_client slot s =
     (if slot < 0 \<or> slot \<ge> int MAX_CLIENTS \<or> \<not> active (clients s ! nat slot) then s
      else
        let c = clients s ! nat slot;
            s1 = printf (Disconnected (if name c ! 0 \<noteq> NUL then cstr (name c) else ''unknown'')
                           (nat slot) (fd c)) s;
            s2 = sys_close (fd c) s1;
            c' = c\<lparr>fd := -1, active := False, name := (name c)[0 := NUL]\<rparr>
        in s2\<lparr>clients := (clients s2)[nat slot := c'], num_clients := num_clients s2 - 1\<rparr>)"

subsection \<open>Broadcast\<close>

text \<open>The body of the loop of \<open>broadcast_message\<close> for the slot \<open>i\<close>.\<close>

definition broadcast_step :: "env \<Rightarrow> char list \<Rightarrow> int \<Rightarrow> nat \<Rightarrow> state \<Rightarrow> state" where
  "broadcast_step e msg sender_slot i s =
     (if active (clients s ! i) \<and> int i \<noteq> sender_slot then
        (let (sent, s1) = sys_write e (fd (clients s ! i)) msg s
         in if sent < 0 then printf (SendFailed i) s1 else s1)
      else s)"

fun broadcast_loop :: "env \<Rightarrow> char list \<Rightarrow> int \<Rightarrow> nat list \<Rightarrow> state \<Rightarrow> state" where
  "broadcast_loop e msg sender_slot [] s = s"
| "broadcast_loop e msg sender_slot (i # is) s =
     broadcast_loop e msg sender_slot is (broadcast_step e msg sender_slot i s)"

text \<open>\<open>write(fd, msg, len)\<close> sends the first \<open>len\<close> bytes of the buffer.\<close>

definition broadcast_message :: "env \<Rightarrow> char list \<Rightarrow> nat \<Rightarrow> int \<Rightarrow> state \<Rightarrow> state" where
  "broadcast_message e msg len sender_slot s =
     broadcast_loop e (take len msg) sender_slot [0..<MAX_CLIENTS] s"

text \<open>
  The well-formed tables: \<open>struct client clients[MAX_CLIENTS]\<close> with \<open>char name[32]\<close>.
\<close>

definition wf_state :: "state \<Rightarrow> bool" where
  "wf_state s \<longleftrightarrow> length (clients s) = MAX_CLIENTS \<and> list_all (\<lambda>c. length (name c) = 32) (clients s)"

subsection \<open>Accepting a connection\<close>

text \<open>
  The decimal digits of the slot number, least significant first, as the \<open>do\<close> loop of
  \<open>handle_new_connection\<close> stores them; the code then reverses them in place. The slot
  is never negative there.
\<close>

function slot_digits :: "nat \<Rightarrow> char list" where
  "slot_digits temp =
     char_of (48 + temp mod 10) # (if temp div 10 > 0 then slot_digits (temp div 10) else [])"
  by pat_completeness auto
termination
  by (relation "measure (\<lambda>temp. temp)") auto

declare slot_digits.simps [simp del]

definition default_name :: "nat \<Rightarrow> char list" where
  "default_name slot = ''user'' @ rev (slot_digits slot)"

definition full_notice :: "char list" where
  "full_notice = ''Server is full. Please try again later.\<newline>''"

definition welcome_msg :: "char list \<Rightarrow> char list" where
  "welcome_msg nm = ''Welcome to xv6 Chat Server! Your name is: '' @ cstr nm @ ''\<newline>''"

definition join_msg :: "char list \<Rightarrow> char list" where
  "join_msg nm = ''*** '' @ cstr nm @ '' has joined the chat ***\<newline>''"

text \<open>The handler does not look at what its two calls of \<open>write\<close> return.\<close>

definition handle_new_connection :: "env \<Rightarrow> state \<Rightarrow> state" where
  "handle_new_connection e s =
     (let ((client_fd, a, p), s1) = sys_accept e (server_sock s) s in
      if client_fd < 0 then printf AcceptFailed s1
      else
        let slot = find_empty_slot s1 in
        if slot < 0 then
          let s2 = printf ServerFull s1;
              s3 = snd (sys_write e client_fd (take (length (cstr full_notice)) full_notice) s2)
          in sys_close client_fd s3
        else
          let k = nat slot;
              c = (clients s1 ! k)\<lparr>fd := client_fd, active := True, addr := a, port := p\<rparr>;
              c' = c\<lparr>name := strcpy (name c) (default_name k @ [NUL])\<rparr>;
              s2 = s1\<lparr>clients := (clients s1)[k := c'], num_clients := num_clients s1 + 1\<rparr>;
              s3 = printf (NewClient k client_fd) s2;
              welcome = welcome_msg (name c');
              s4 = snd (sys_write e client_fd (take (length welcome) welcome) s3);
              jm = join_msg (name c')
          in broadcast_message e jm (length jm) (int k) s4)"

subsection \<open>Data from a client\<close>

definition leave_msg :: "char list \<Rightarrow> char list" where
  "leave_msg nm = ''*** '' @ cstr nm @ '' has left the chat ***\<newline>''"

definition handle_leave :: "env \<Rightarrow> nat \<Rightarrow> state \<Rightarrow> state" where
  "handle_leave e slot s =
     (let lm = leave_msg (name (clients s ! slot));
          slot_save = int slot;
          s1 = remove_client (int slot) s
      in broadcast_message e lm (length lm) slot_save s1)"

text \<open>
  The loop that copies the new nickname: \<open>i\<close> runs over the buffer from 6, \<open>new_len\<close>
  counts the bytes stored into \<open>name\<close>.
\<close>

function rename_loop :: "char list \<Rightarrow> nat \<Rightarrow> nat \<Rightarrow> nat \<Rightarrow> char list \<Rightarrow> nat \<times> char list" where
  "rename_loop buf n i new_len nm =
     (if i < n \<and> buf ! i \<noteq> LF \<and> buf ! i \<noteq> CR \<and> new_len < 31
      then rename_loop buf n (i + 1) (new_len + 1) (nm[new_len := buf ! i])
      else (new_len, nm))"
  by pat_completeness auto
termination
  by (relation "measure (\<lambda>(buf, n, i, new_len, nm). n - i)") auto

declare rename_loop.simps [simp del]

definition name_msg :: "char list \<Rightarrow> char list \<Rightarrow> char list" where
  "name_msg old_name nm =
     ''*** '' @ cstr old_name @ '' is now known as '' @ cstr nm @ '' ***\<newline>''"

definition handle_rename :: "env \<Rightarrow> nat \<Rightarrow> char list \<Rightarrow> nat \<Rightarrow> state \<Rightarrow> state" where
  "handle_rename e slot buf n s =
     (let c = clients s ! slot;
          old_name = strcpy (replicate 32 NUL) (name c);
          (new_len, nm) = rename_loop buf n 6 0 (name c);
          c' = c\<lparr>name := nm[new_len := NUL]\<rparr>;
          s1 = s\<lparr>clients := (clients s)[slot := c']\<rparr>;
          m = name_msg old_name (name c')
      in broadcast_message e m (length m) (-1) s1)"

text \<open>
  The reply to \<open>/list\<close> is put together in \<open>char list_msg[512]\<close>. The model keeps the
  bytes stored so far, so that the length of the list is the write index \<open>llen\<close>; the
  terminating NUL goes to index \<open>llen\<close> at the end.
\<close>

fun list_loop :: "client list \<Rightarrow> nat \<Rightarrow> nat list \<Rightarrow> char list \<Rightarrow> char list" where
  "list_loop cs slot [] m = m"
| "list_loop cs slot (i # is) m =
     list_loop cs slot is
       (if active (cs ! i)
        then m @ '' - '' @ cstr (name (cs ! i)) @ (if i = slot then '' (you)'' else []) @ ''\<newline>''
        else m)"

definition list_msg :: "state \<Rightarrow> nat \<Rightarrow> char list" where
  "list_msg s slot = list_loop (clients s) slot [0..<MAX_CLIENTS] ''Connected users:\<newline>''"

definition LIST_MSG_SIZE :: nat where
  "LIST_MSG_SIZE = 512"

text \<open>
  Every store into \<open>list_msg\<close> is inside the array exactly when the last one is, the NUL
  at index \<open>llen\<close>.
\<close>

definition list_msg_in_bounds :: "state \<Rightarrow> nat \<Rightarrow> bool" where
  "list_msg_in_bounds s slot \<longleftrightarrow> length (list_msg s slot) < LIST_MSG_SIZE"

text \<open>
  A store behind the end of the array has no defined behaviour in C; the model stops the
  handler there and records the fault instead of the \<open>write\<close>.
\<close>

datatype fault = Overflow nat nat

definition handle_list :: "env \<Rightarrow> nat \<Rightarrow> state \<Rightarrow> fault + state" where
  "handle_list e slot s =
     (let m = list_msg s slot; llen = length m in
      if llen < LIST_MSG_SIZE
      then Inr (snd (sys_write e (fd (clients s ! slot)) (take llen m) s))
      else Inl (Overflow llen LIST_MSG_SIZE))"

definition chat_msg :: "char list \<Rightarrow> char list \<Rightarrow> nat \<Rightarrow> char list" where
  "chat_msg nm buf n =
     ''['' @ cstr nm @ ''] '' @ take n buf @ (if n > 0 \<and> buf ! (n - 1) \<noteq> LF then [LF] else [])"

definition handle_chat :: "env \<Rightarrow> nat \<Rightarrow> char list \<Rightarrow> nat \<Rightarrow> state \<Rightarrow> state" where
  "handle_chat e slot buf n s =
     (let b = chat_msg (name (clients s ! slot)) buf n;
          s1 = printf (Chat (cstr (b @ [NUL]))) s
      in broadcast_message e b (length b) (int slot) s1)"

definition is_name_cmd :: "char list \<Rightarrow> int \<Rightarrow> bool" where
  "is_name_cmd buf n \<longleftrightarrow>
     n > 6 \<and> buf ! 0 = CHR ''/'' \<and> buf ! 1 = CHR ''n'' \<and> buf ! 2 = CHR ''a'' \<and>
     buf ! 3 = CHR ''m'' \<and> buf ! 4 = CHR ''e'' \<and> buf ! 5 = CHR '' ''"

definition is_list_cmd :: "char list \<Rightarrow> int \<Rightarrow> bool" where
  "is_list_cmd buf n \<longleftrightarrow>
     n \<ge> 5 \<and> buf ! 0 = CHR ''/'' \<and> buf ! 1 = CHR ''l'' \<and> buf ! 2 = CHR ''i'' \<and>
     buf ! 3 = CHR ''s'' \<and> buf ! 4 = CHR ''t''"

text \<open>
  The body of \<open>handle_client_data\<close> after the \<open>read\<close>: \<open>n\<close> is what \<open>read\<close> returned and
  \<open>buf\<close> holds the bytes, with \<open>buf[n] = 0\<close> stored behind them.
\<close>

definition handle_read :: "env \<Rightarrow> nat \<Rightarrow> read_result \<Rightarrow> state \<Rightarrow> fault + state" where
  "handle_read e slot r s =
     (let n = read_ret r; buf = read_buf r @ [NUL] in
      if n \<le> 0 then Inr (handle_leave e slot s)
      else if is_name_cmd buf n then Inr (handle_rename e slot buf (nat n) s)
      else if is_list_cmd buf n then handle_list e slot s
      else Inr (handle_chat e slot buf (nat n) s))"

definition handle_client_data :: "env \<Rightarrow> nat \<Rightarrow> state \<Rightarrow> fault + state" where
  "handle_client_data e slot s =
     (let (r, s1) = sys_read e (fd (clients s ! slot)) (BUF_SIZE - 1) s
      in handle_read e slot r s1)"

subsection \<open>The event loop\<close>

record pollfd =
  poll_fd :: int
  events :: int
  revents :: int

definition build_poll_array :: "state \<Rightarrow> pollfd list" where
  "build_poll_array s =
     \<lparr>poll_fd = server_sock s, events = POLLIN, revents = 0\<rparr> #
     map (\<lambda>i. \<lparr>poll_fd = fd (clients s ! i), events = POLLIN, revents = 0\<rparr>)
       (filter (\<lambda>i. active (clients s ! i)) [0..<MAX_CLIENTS])"

text \<open>
  \<open>net_poll(fds, nfds, -1)\<close>: the kernel stores a \<open>revents\<close> value into every entry and
  returns the number of ready entries, or a negative number.
\<close>

definition net_poll :: "env \<Rightarrow> pollfd list \<Rightarrow> state \<Rightarrow> int \<times> pollfd list \<times> state" where
  "net_poll e fds s =
     (let s1 = emit (EvPoll (map poll_fd fds)) s;
          (ready, revs) = poll_res e (trace s1)
      in (ready,
          map (\<lambda>k. (fds ! k)\<lparr>revents := (if k < length revs then revs ! k else 0)\<rparr>) [0..<length fds],
          s1))"

text \<open>The block of \<open>main\<close> that answers POLLERR or POLLHUP on a client.\<close>

definition handle_hangup :: "env \<Rightarrow> nat \<Rightarrow> state \<Rightarrow> state" where
  "handle_hangup e i s =
     (let lm = leave_msg (name (clients s ! i));
          s1 = remove_client (int i) s
      in broadcast_message e lm (length lm) (-1) s1)"

fun find_fd :: "pollfd list \<Rightarrow> nat list \<Rightarrow> int \<Rightarrow> nat option" where
  "find_fd fds [] h = None"
| "find_fd fds (j # js) h = (if poll_fd (fds ! j) = h then Some j else find_fd fds js h)"

definition serve_entry :: "env \<Rightarrow> pollfd \<Rightarrow> nat \<Rightarrow> state \<Rightarrow> fault + state" where
  "serve_entry e p i s =
     (case (if revents p AND POLLIN \<noteq> 0 then handle_client_data e i s else Inr s) of
        Inl f \<Rightarrow> Inl f
      | Inr s1 \<Rightarrow>
          Inr (if revents p AND (POLLERR OR POLLHUP) \<noteq> 0 then handle_hangup e i s1 else s1))"

function dispatch_clients ::
  "env \<Rightarrow> pollfd list \<Rightarrow> nat \<Rightarrow> nat \<Rightarrow> nat \<Rightarrow> state \<Rightarrow> fault + state" where
  "dispatch_clients e fds nfds i idx s =
     (if i < MAX_CLIENTS \<and> idx < nfds then
        (if \<not> active (clients s ! i) then dispatch_clients e fds nfds (i + 1) idx s
         else
           (case find_fd fds [idx..<nfds] (fd (clients s ! i)) of
              None \<Rightarrow> dispatch_clients e fds nfds (i + 1) idx s
            | Some j \<Rightarrow>
                (case serve_entry e (fds ! j) i s of
                   Inl f \<Rightarrow> Inl f
                 | Inr s2 \<Rightarrow> dispatch_clients e fds nfds (i + 1) (idx + 1) s2)))
      else Inr s)"
  by pat_completeness auto
termination
  by (relation "measure (\<lambda>(e, fds, nfds, i, idx, s). MAX_CLIENTS - i)") auto

declare dispatch_clients.simps [simp del]

text \<open>
  One turn of the \<open>while (1)\<close> loop of \<open>main\<close>. The flag of the result says whether the
  loop goes on (\<open>continue\<close>, or the end of the body) or is left (\<open>break\<close>).
\<close>

definition main_cycle :: "env \<Rightarrow> state \<Rightarrow> fault + bool \<times> state" where
  "main_cycle e s =
     (let fds0 = build_poll_array s;
          nfds = length fds0;
          (ready, fds, s1) = net_poll e fds0 s
      in if ready < 0 then Inr (True, printf PollError s1)
         else if ready = 0 then Inr (True, s1)
         else
           let s2 = (if revents (fds ! 0) AND POLLIN \<noteq> 0 then handle_new_connection e s1 else s1)
           in if revents (fds ! 0) AND (POLLERR OR POLLHUP) \<noteq> 0
              then Inr (False, printf ServerSockError s2)
              else map_sum id (Pair True) (dispatch_clients e fds nfds 0 1 s2))"

text \<open>
  The start of \<open>main\<close> up to the loop. The second component is the exit status when the
  program ends there.
\<close>

definition startup :: "env \<Rightarrow> state \<times> int option" where
  "startup e =
     (let s0 = printf Banner start_state;
          s1 = init_clients s0;
          s2 = printf Binding s1;
          s3 = emit EvSocket s2;
          s4 = s3\<lparr>server_sock := socket_res e (trace s3)\<rparr>
      in if server_sock s4 < 0 then (emit (EvExit 1) (printf SocketFailed s4), Some 1)
         else
           let s5 = emit (EvBind (server_sock s4)) s4 in
           if bind_res e (trace s5) < 0
           then (emit (EvExit 1) (sys_close (server_sock s5) (printf BindFailed s5)), Some 1)
           else
             let s6 = emit (EvListen (server_sock s5) MAX_CLIENTS) s5 in
             if listen_res e (trace s6) < 0
             then (emit (EvExit 1) (sys_close (server_sock s6) (printf ListenFailed s6)), Some 1)
             else (printf Listening s6, None))"

text \<open>
  The loop itself may run for ever; \<open>main_loop\<close> runs at most the given number of turns
  and yields \<open>None\<close> when the loop is still running after them.
\<close>

fun main_loop :: "env \<Rightarrow> nat \<Rightarrow> state \<Rightarrow> (fault + state) option" where
  "main_loop e 0 s = None"
| "main_loop e (Suc k) s =
     (case main_cycle e s of
        Inl f \<Rightarrow> Some (Inl f)
      | Inr (go_on, s') \<Rightarrow> if go_on then main_loop e k s' else Some (Inr s'))"

fun close_active :: "client list \<Rightarrow> nat list \<Rightarrow> state \<Rightarrow> state" where
  "close_active cs [] s = s"
| "close_active cs (i # is) s =
     close_active cs is (if active (cs ! i) then sys_close (fd (cs ! i)) s else s)"

definition cleanup :: "state \<Rightarrow> state" where
  "cleanup s =
     (let s1 = printf ShuttingDown s;
          s2 = close_active (clients s1) [0..<MAX_CLIENTS] s1;
          s3 = sys_close (server_sock s2) s2
      in emit (EvExit 0) s3)"

definition main :: "env \<Rightarrow> nat \<Rightarrow> (fault + state) option" where
  "main e k =
     (case startup e of
        (s, Some code) \<Rightarrow> Some (Inr s)
      | (s, None) \<Rightarrow> map_option (map_sum id cleanup) (main_loop e k s))"

text \<open>The states in which the loop of \<open>main\<close> starts a turn.\<close>

inductive reachable :: "env \<Rightarrow> state \<Rightarrow> bool" for e :: env where
  reach_start: "startup e = (s, None) \<Longrightarrow> reachable e s"
| reach_cycle: "reachable e s \<Longrightarrow> main_cycle e s = Inr (True, s') \<Longrightarrow> reachable e s'"

text \<open>
  Modelled from the spec: the blocking mode of a handle. The kernel keeps it per open
  file (kernel/file.h and kernel/sysfile.c are not among the sources); the repository's
  notes say that a handle is blocking until \<open>fcntl(fd, F_SETFL, flags)\<close> is called on it,
  and non-blocking afterwards exactly when \<open>flags\<close> has the bit \<open>O_NONBLOCK\<close>. A handle
  that is closed and handed out again starts blocking.
\<close>

definition O_NONBLOCK :: int where
  "O_NONBLOCK = 0x800"

definition F_SETFL :: int where
  "F_SETFL = 4"

definition flag_step :: "int \<Rightarrow> bool \<Rightarrow> event \<Rightarrow> bool" where
  "flag_step h b ev =
     (case ev of
        EvFcntl h' cmd arg \<Rightarrow> if h' = h \<and> cmd = F_SETFL then arg AND O_NONBLOCK \<noteq> 0 else b
      | EvClose h' \<Rightarrow> if h' = h then False else b
      | _ \<Rightarrow> b)"

definition nonblocking :: "event list \<Rightarrow> int \<Rightarrow> bool" where
  "nonblocking t h = foldl (flag_step h) False t"

subsection \<open>Reading a trace\<close>

fun writes_of :: "event list \<Rightarrow> (int \<times> char list) list" where
  "writes_of [] = []"
| "writes_of (EvWrite h m # evs) = (h, m) # writes_of evs"
| "writes_of (ev # evs) = writes_of evs"

fun closes_of :: "event list \<Rightarrow> int list" where
  "closes_of [] = []"
| "closes_of (EvClose h # evs) = h # closes_of evs"
| "closes_of (ev # evs) = closes_of evs"

fun reads_of :: "event list \<Rightarrow> int list" where
  "reads_of [] = []"
| "reads_of (EvRead h # evs) = h # reads_of evs"
| "reads_of (ev # evs) = reads_of evs"

fun fcntls_of :: "event list \<Rightarrow> (int \<times> int \<times> int) list" where
  "fcntls_of [] = []"
| "fcntls_of (EvFcntl h cmd arg # evs) = (h, cmd, arg) # fcntls_of evs"
| "fcntls_of (ev # evs) = fcntls_of evs"

text \<open>The events of a broadcast: a \<open>write\<close>, or the console line for a failed one.\<close>

fun bc_event :: "event \<Rightarrow> bool" where
  "bc_event (EvWrite h m) = True"
| "bc_event (EvLog (SendFailed i)) = True"
| "bc_event ev = False"

text \<open>The events that a step from \<open>s\<close> to \<open>s'\<close> has added to the trace.\<close>

definition new_events :: "state \<Rightarrow> state \<Rightarrow> event list" where
  "new_events s s' = drop (length (trace s)) (trace s')"

text \<open>The slots that a broadcast with the given excluded slot writes to, in order.\<close>

definition recipients :: "state \<Rightarrow> int \<Rightarrow> nat list" where
  "recipients s sender_slot =
     filter (\<lambda>i. active (clients s ! i) \<and> int i \<noteq> sender_slot) [0..<MAX_CLIENTS]"

subsection \<open>The nickname a rename line asks for\<close>


subsection \<open>Sample tables and environments\<close>

definition mk_client :: "int \<Rightarrow> char list \<Rightarrow> client" where
  "mk_client h nm =
     \<lparr>fd = h, active = True, name = nm @ replicate (32 - length nm) NUL,
      addr = 0x0100007F, port = 0x1F90\<rparr>"

definition free_client :: client where
  "free_client = \<lparr>fd = -1, active = False, name = replicate 32 NUL, addr = 0, port = 0\<rparr>"

text \<open>Two sessions, \<open>user0\<close> on handle 4 and \<open>user1\<close> on handle 5; twelve free slots.\<close>

definition two_clients :: state where
  "two_clients =
     \<lparr>clients = [mk_client 4 ''user0'', mk_client 5 ''user1''] @ replicate 12 free_client,
      server_sock = 3, num_clients = 2, trace = []\<rparr>"


text \<open>An environment that gives the same answer to every call of a kind.\<close>

definition const_env :: "read_result \<Rightarrow> int \<Rightarrow> int \<Rightarrow> int list \<Rightarrow> env" where
  "const_env r w a revs =
     \<lparr>socket_res = (\<lambda>t. 3), bind_res = (\<lambda>t. 0), listen_res = (\<lambda>t. 0),
      accept_res = (\<lambda>t. (a, 0x0100007F, 0x1F90)), read_res = (\<lambda>t. r),
      write_res = (\<lambda>t. w), poll_res = (\<lambda>t. (1, revs))\<rparr>"

text \<open>
  A start of the program in which \<open>socket\<close> gives handle 3, and a first turn of the loop
  in which the listening handle is readable and \<open>accept\<close> gives handle 4.
\<close>

definition boot_env :: env where
  "boot_env = const_env REof 1 4 [1]"

definition first_session :: state where
  "first_session =
     (case main_cycle boot_env (fst (startup boot_env)) of
        Inr (go_on, s) \<Rightarrow> s
      | Inl f \<Rightarrow> start_state)"

text \<open>A full table in which every session has taken a nickname of 31 letters.\<close>

definition long_names :: state where
  "long_names =
     \<lparr>clients = map (\<lambda>i. mk_client (4 + int i) (replicate 31 (CHR ''a''))) [0..<MAX_CLIENTS],
      server_sock = 3, num_clients = 14, trace = []\<rparr>"

text \<open>Data arriving on the given slots, one after the other.\<close>

fun serve_all :: "env \<Rightarrow> nat list \<Rightarrow> state \<Rightarrow> fault + state" where
  "serve_all e [] s = Inr s"
| "serve_all e (i # is) s =
     (case handle_client_data e i s of Inl f \<Rightarrow> Inl f | Inr s' \<Rightarrow> serve_all e is s')"

section \<open>Basic facts\<close>

subsection \<open>System calls and traces\<close>

lemma emit_fields [simp]:
  "clients (emit ev s) = clients s"
  "num_clients (emit ev s) = num_clients s"
  "server_sock (emit ev s) = server_sock s"
  "trace (emit ev s) = trace s @ [ev]"
  by (simp_all add: emit_def)

lemma printf_fields [simp]:
  "clients (printf m s) = clients s"
  "num_clients (printf m s) = num_clients s"
  "server_sock (printf m s) = server_sock s"
  "trace (printf m s) = trace s @ [EvLog m]"
  by (simp_all add: printf_def)

lemma sys_close_fields [simp]:
  "clients (sys_close h s) = clients s"
  "num_clients (sys_close h s) = num_clients s"
  "server_sock (sys_close h s) = server_sock s"
  "trace (sys_close h s) = trace s @ [EvClose h]"
  by (simp_all add: sys_close_def)

lemma sys_write_snd [simp]: "snd (sys_write e h m s) = emit (EvWrite h m) s"
  by (simp add: sys_write_def Let_def)

lemma sys_write_fst [simp]: "fst (sys_write e h m s) = write_res e (trace s @ [EvWrite h m])"
  by (simp add: sys_write_def Let_def)

lemma writes_of_append [simp]: "writes_of (xs @ ys) = writes_of xs @ writes_of ys"
  by (induction xs rule: writes_of.induct) simp_all

lemma closes_of_append [simp]: "closes_of (xs @ ys) = closes_of xs @ closes_of ys"
  by (induction xs rule: closes_of.induct) simp_all

lemma reads_of_append [simp]: "reads_of (xs @ ys) = reads_of xs @ reads_of ys"
  by (induction xs rule: reads_of.induct) simp_all

lemma fcntls_of_append [simp]: "fcntls_of (xs @ ys) = fcntls_of xs @ fcntls_of ys"
  by (induction xs rule: fcntls_of.induct) simp_all

lemma new_events_append: "trace s' = trace s @ evs \<Longrightarrow> new_events s s' = evs"
  by (simp add: new_events_def)

subsection \<open>Broadcast\<close>

lemma broadcast_step_fields [simp]:
  "clients (broadcast_step e msg x i s) = clients s"
  "num_clients (broadcast_step e msg x i s) = num_clients s"
  "server_sock (broadcast_step e msg x i s) = server_sock s"
  by (simp_all add: broadcast_step_def split_beta Let_def)

lemma broadcast_step_trace:
  "\<exists>evs. trace (broadcast_step e msg x i s) = trace s @ evs \<and>
         writes_of evs = (if active (clients s ! i) \<and> int i \<noteq> x then [(fd (clients s ! i), msg)] else []) \<and>
         closes_of evs = [] \<and> reads_of evs = [] \<and> fcntls_of evs = [] \<and> list_all bc_event evs"
  by (simp add: broadcast_step_def split_beta Let_def)

lemma broadcast_loop_fields [simp]:
  "clients (broadcast_loop e msg x is s) = clients s"
  "num_clients (broadcast_loop e msg x is s) = num_clients s"
  "server_sock (broadcast_loop e msg x is s) = server_sock s"
  by (induction "is" arbitrary: s; simp)+

lemma broadcast_loop_trace:
  "\<exists>evs. trace (broadcast_loop e msg x is s) = trace s @ evs \<and>
         writes_of evs =
           map (\<lambda>i. (fd (clients s ! i), msg)) (filter (\<lambda>i. active (clients s ! i) \<and> int i \<noteq> x) is) \<and>
         closes_of evs = [] \<and> reads_of evs = [] \<and> fcntls_of evs = [] \<and> list_all bc_event evs"
proof (induction "is" arbitrary: s)
  case Nil
  then show ?case by simp
next
  case (Cons i "is")
  let ?s1 = "broadcast_step e msg x i s"
  obtain evs1 where 1: "trace ?s1 = trace s @ evs1"
    "writes_of evs1 = (if active (clients s ! i) \<and> int i \<noteq> x then [(fd (clients s ! i), msg)] else [])"
    "closes_of evs1 = []" "reads_of evs1 = []" "fcntls_of evs1 = []" "list_all bc_event evs1"
    using broadcast_step_trace by blast
  obtain evs2 where 2: "trace (broadcast_loop e msg x is ?s1) = trace ?s1 @ evs2"
    "writes_of evs2 = map (\<lambda>i. (fd (clients s ! i), msg)) (filter (\<lambda>i. active (clients s ! i) \<and> int i \<noteq> x) is)"
    "closes_of evs2 = []" "reads_of evs2 = []" "fcntls_of evs2 = []" "list_all bc_event evs2"
    using Cons.IH [of ?s1] by (auto simp only: broadcast_step_fields)
  show ?case
    apply (rule exI [of _ "evs1 @ evs2"])
    using 1 2 by auto
qed

lemma broadcast_message_fields [simp]:
  "clients (broadcast_message e msg len x s) = clients s"
  "num_clients (broadcast_message e msg len x s) = num_clients s"
  "server_sock (broadcast_message e msg len x s) = server_sock s"
  by (simp_all add: broadcast_message_def)

lemma broadcast_message_trace:
  "\<exists>evs. trace (broadcast_message e msg len x s) = trace s @ evs \<and>
         writes_of evs = map (\<lambda>i. (fd (clients s ! i), take len msg)) (recipients s x) \<and>
         closes_of evs = [] \<and> reads_of evs = [] \<and> fcntls_of evs = [] \<and> list_all bc_event evs"
  unfolding broadcast_message_def recipients_def by (rule broadcast_loop_trace)

text \<open>
  C6, as the code has it: a broadcast leaves the table as it is and issues, for every
  active slot other than the excluded one and in the order of the slots, one
  \<open>write\<close> of the first \<open>len\<close> bytes of the message to that slot's handle, whatever
  the earlier writes returned. Beside these writes it only prints the line for a failed
  write: no handle is closed and nothing about the failing recipient is recorded.
\<close>

theorem broadcast_message_fanout:
  "clients (broadcast_message e msg len x s) = clients s \<and>
   num_clients (broadcast_message e msg len x s) = num_clients s \<and>
   trace (broadcast_message e msg len x s) = trace s @ new_events s (broadcast_message e msg len x s) \<and>
   writes_of (new_events s (broadcast_message e msg len x s)) =
     map (\<lambda>i. (fd (clients s ! i), take len msg)) (recipients s x) \<and>
   closes_of (new_events s (broadcast_message e msg len x s)) = [] \<and>
   list_all bc_event (new_events s (broadcast_message e msg len x s)) \<and>
   distinct (recipients s x) \<and>
   set (recipients s x) = {i. i < MAX_CLIENTS \<and> active (clients s ! i) \<and> int i \<noteq> x}"
proof -
  obtain evs where "trace (broadcast_message e msg len x s) = trace s @ evs"
    "writes_of evs = map (\<lambda>i. (fd (clients s ! i), take len msg)) (recipients s x)"
    "closes_of evs = []" "list_all bc_event evs"
    using broadcast_message_trace by blast
  then show ?thesis
    by (auto simp add: new_events_def recipients_def)
qed

text \<open>
  C6 as stated says that a failed write marks the recipient for a later teardown. With
  two sessions and every write failing, the state after the broadcast is the state
  before it but for the trace, and the trace holds the two writes and two console lines.
\<close>

theorem broadcast_message_failed_write_unmarked:
  "broadcast_message (const_env REof (-1) 6 []) ''hi'' 2 (-1) two_clients =
     two_clients\<lparr>trace := [EvWrite 4 ''hi'', EvLog (SendFailed 0), EvWrite 5 ''hi'', EvLog (SendFailed 1)]\<rparr>"
  by code_simp

subsection \<open>Releasing a slot\<close>

lemma remove_client_noop:
  "\<not> (0 \<le> slot \<and> slot < int MAX_CLIENTS \<and> active (clients s ! nat slot)) \<Longrightarrow> remove_client slot s = s"
  by (auto simp add: remove_client_def)

lemma remove_client_active:
  assumes "0 \<le> slot" "slot < int MAX_CLIENTS" "active (clients s ! nat slot)"
  shows "remove_client slot s =
           s\<lparr>clients := (clients s)[nat slot := (clients s ! nat slot)\<lparr>fd := -1, active := False,
                 name := (name (clients s ! nat slot))[0 := NUL]\<rparr>],
             num_clients := num_clients s - 1,
             trace := trace s @ [EvLog (Disconnected (if name (clients s ! nat slot) ! 0 \<noteq> NUL
                         then cstr (name (clients s ! nat slot)) else ''unknown'') (nat slot) (fd (clients s ! nat slot))),
                        EvClose (fd (clients s ! nat slot))]\<rparr>"
  using assms by (simp add: remove_client_def Let_def printf_def sys_close_def emit_def)

lemma cstr_clear [simp]: "cstr (a[0 := NUL]) = []"
  by (cases a) (simp_all add: cstr_def)

text \<open>
  C7, as the code has it: releasing an active slot of the table marks it inactive, sets
  its descriptor to -1, closes its handle once, empties the nickname by storing NUL
  into its first byte (the other bytes stay), leaves the peer address and port as they
  were, touches no other slot and lowers the count by one. Releasing a slot that is
  inactive or outside the table changes nothing, so releasing twice is releasing once.
\<close>

theorem remove_client_release:
  assumes "length (clients s) = MAX_CLIENTS"
  shows "(if 0 \<le> slot \<and> slot < int MAX_CLIENTS \<and> active (clients s ! nat slot)
          then \<not> active (clients (remove_client slot s) ! nat slot) \<and>
               fd (clients (remove_client slot s) ! nat slot) = -1 \<and>
               cstr (name (clients (remove_client slot s) ! nat slot)) = [] \<and>
               drop 1 (name (clients (remove_client slot s) ! nat slot)) = drop 1 (name (clients s ! nat slot)) \<and>
               addr (clients (remove_client slot s) ! nat slot) = addr (clients s ! nat slot) \<and>
               port (clients (remove_client slot s) ! nat slot) = port (clients s ! nat slot) \<and>
               (\<forall>j. j \<noteq> nat slot \<longrightarrow> clients (remove_client slot s) ! j = clients s ! j) \<and>
               num_clients (remove_client slot s) = num_clients s - 1 \<and>
               server_sock (remove_client slot s) = server_sock s \<and>
               closes_of (new_events s (remove_client slot s)) = [fd (clients s ! nat slot)] \<and>
               writes_of (new_events s (remove_client slot s)) = []
          else remove_client slot s = s) \<and>
         remove_client slot (remove_client slot s) = remove_client slot s"
proof (cases "0 \<le> slot \<and> slot < int MAX_CLIENTS \<and> active (clients s ! nat slot)")
  case True
  then have lt: "nat slot < length (clients s)"
    using assms by (simp add: nat_less_iff)
  have eq: "remove_client slot s =
           s\<lparr>clients := (clients s)[nat slot := (clients s ! nat slot)\<lparr>fd := -1, active := False,
                 name := (name (clients s ! nat slot))[0 := NUL]\<rparr>],
             num_clients := num_clients s - 1,
             trace := trace s @ [EvLog (Disconnected (if name (clients s ! nat slot) ! 0 \<noteq> NUL
                         then cstr (name (clients s ! nat slot)) else ''unknown'') (nat slot) (fd (clients s ! nat slot))),
                        EvClose (fd (clients s ! nat slot))]\<rparr>"
    using True by (simp add: remove_client_active)
  have inactive: "\<not> active (clients (remove_client slot s) ! nat slot)"
    using lt by (simp add: eq)
  have idem: "remove_client slot (remove_client slot s) = remove_client slot s"
    using inactive by (simp add: remove_client_noop)
  show ?thesis
    using True lt idem by (simp add: eq new_events_def drop_Suc tl_def split: list.splits) 
next
  case False
  have "remove_client slot s = s"
    using False by (rule remove_client_noop)
  then show ?thesis
    unfolding if_not_P [OF False] by simp
qed

theorem remove_client_release_witness:
  "length (clients two_clients) = MAX_CLIENTS \<and>
   active (clients two_clients ! 0) \<and>
   \<not> active (clients (remove_client 0 two_clients) ! 0) \<and>
   closes_of (new_events two_clients (remove_client 0 two_clients)) = [4] \<and>
   \<not> active (clients two_clients ! 2) \<and>
   remove_client 2 two_clients = two_clients \<and>
   remove_client 0 (remove_client 0 two_clients) = remove_client 0 two_clients"
proof -
  have len: "length (clients two_clients) = MAX_CLIENTS"
    by (simp add: two_clients_def MAX_CLIENTS_def)
  have a0: "active (clients two_clients ! 0)" and a2: "\<not> active (clients two_clients ! 2)"
    by (simp_all add: two_clients_def mk_client_def free_client_def)
  have fd0: "fd (clients two_clients ! 0) = 4"
    by (simp add: two_clients_def mk_client_def)
  show ?thesis
    using remove_client_release [OF len, of 0] remove_client_release [OF len, of 2] len a0 a2 fd0
    by (simp add: MAX_CLIENTS_def)
qed

text \<open>
  C7 as stated says that the release clears every identity field, the peer address
  with the nickname. After the release of slot 0 of the sample table its address and
  port still hold the peer's values, and the bytes of the name behind the first remain.
\<close>

theorem remove_client_keeps_address:
  "addr (clients (remove_client 0 two_clients) ! 0) = 0x0100007F \<and>
   port (clients (remove_client 0 two_clients) ! 0) = 0x1F90 \<and>
   name (clients (remove_client 0 two_clients) ! 0) = NUL # ''ser0'' @ replicate 27 NUL"
  by code_simp

lemma sys_accept_snd [simp]: "snd (sys_accept e h s) = emit (EvAccept h) s"
  by (simp add: sys_accept_def Let_def)

lemma sys_accept_fst [simp]: "fst (sys_accept e h s) = accept_res e (trace s @ [EvAccept h])"
  by (simp add: sys_accept_def Let_def)

lemma sys_read_snd [simp]: "snd (sys_read e h cnt s) = emit (EvRead h) s"
  by (simp add: sys_read_def Let_def)


subsection \<open>Finding a free slot\<close>





lemma find_empty_slot_emit [simp]: "find_empty_slot (emit ev s) = find_empty_slot s"
  by (simp add: find_empty_slot_def)

subsection \<open>Leaving\<close>




lemma remove_client_length [simp]: "length (clients (remove_client slot s)) = length (clients s)"
  by (simp add: remove_client_def Let_def)

lemma remove_client_server_sock [simp]: "server_sock (remove_client slot s) = server_sock s"
  by (simp add: remove_client_def Let_def)


lemma remove_client_trace:
  "\<exists>evs. trace (remove_client slot s) = trace s @ evs \<and> writes_of evs = [] \<and> reads_of evs = [] \<and>
         fcntls_of evs = [] \<and>
         closes_of evs = (if 0 \<le> slot \<and> slot < int MAX_CLIENTS \<and> active (clients s ! nat slot)
                          then [fd (clients s ! nat slot)] else [])"
  by (simp add: remove_client_def Let_def)




lemma handle_client_data_unfold:
  "handle_client_data e slot s =
     handle_read e slot (fst (sys_read e (fd (clients s ! slot)) (BUF_SIZE - 1) s)) (emit (EvRead (fd (clients s ! slot))) s)"
  by (simp add: handle_client_data_def split_beta)







subsection \<open>A connection when the table is full\<close>



subsection \<open>C strings\<close>

lemma cstr_append_NUL [simp]: "cstr (xs @ NUL # ys) = cstr xs"
  by (induction xs) (simp_all add: cstr_def)

lemma cstr_no_NUL: "NUL \<notin> set xs \<Longrightarrow> cstr xs = xs"
  by (induction xs) (auto simp add: cstr_def)

lemma cstr_idem [simp]: "cstr (cstr xs) = cstr xs"
  by (simp add: cstr_def)

lemma cstr_strcpy [simp]: "cstr (strcpy dst src) = cstr src"
  by (simp add: strcpy_def)



subsection \<open>The rename loop\<close>













subsection \<open>The default name\<close>

lemma digit_chars: "list_all (\<lambda>m. char_of (48 + m) \<in> set ''0123456789'') [0..<10::nat]"
  by code_simp

lemma digit_char: "m < 10 \<Longrightarrow> char_of (48 + m :: nat) \<in> set ''0123456789''"
  using digit_chars by (simp add: list_all_iff)

lemma slot_digits_set: "set (slot_digits n) \<subseteq> set ''0123456789''"
proof (induction n rule: slot_digits.induct)
  case (1 temp)
  have "char_of (48 + temp mod 10) \<in> set ''0123456789''"
    by (rule digit_char) simp
  then show ?case
    using 1 by (subst slot_digits.simps) (auto split: if_splits)
qed

lemma slot_digits_nonempty: "slot_digits n \<noteq> []"
proof -
  obtain x xs where "slot_digits n = x # xs"
    using slot_digits.simps [of n] by blast
  then show ?thesis by (simp only: list.distinct not_False_eq_True)
qed

lemma default_name_set: "set (default_name k) \<subseteq> set ''user0123456789''"
proof -
  have "set (default_name k) = set ''user'' \<union> set (slot_digits k)"
    by (simp only: default_name_def set_append set_rev)
  moreover have "set ''user'' \<subseteq> set ''user0123456789''"
    by simp
  moreover have "set ''0123456789'' \<subseteq> set ''user0123456789''"
    by simp
  ultimately show ?thesis
    using slot_digits_set [of k] by blast
qed

lemma default_name_no_NUL: "NUL \<notin> set (default_name k)"
proof -
  have "NUL \<notin> set ''user0123456789''"
    by (simp add: NUL_def)
  then show ?thesis
    using default_name_set [of k] by blast
qed


lemma cstr_default_name [simp]: "cstr (strcpy dst (default_name k @ [NUL])) = default_name k"
  by (simp add: cstr_no_NUL default_name_no_NUL)









section \<open>The event loop\<close>

subsection \<open>What the handlers add to the trace\<close>

lemma handle_leave_ext:
  "\<exists>evs. trace (handle_leave e slot s) = trace s @ evs \<and> fcntls_of evs = []"
proof -
  let ?lm = "leave_msg (name (clients s ! slot))"
  obtain evs1 where 1: "trace (remove_client (int slot) s) = trace s @ evs1" "fcntls_of evs1 = []"
    using remove_client_trace by blast
  obtain evs2 where 2: "trace (broadcast_message e ?lm (length ?lm) (int slot) (remove_client (int slot) s)) =
      trace (remove_client (int slot) s) @ evs2" "fcntls_of evs2 = []"
    using broadcast_message_trace by blast
  show ?thesis
    apply (rule exI [of _ "evs1 @ evs2"])
    using 1 2 by (simp add: handle_leave_def Let_def)
qed

lemma handle_hangup_ext:
  "\<exists>evs. trace (handle_hangup e i s) = trace s @ evs \<and> fcntls_of evs = []"
proof -
  let ?lm = "leave_msg (name (clients s ! i))"
  obtain evs1 where 1: "trace (remove_client (int i) s) = trace s @ evs1" "fcntls_of evs1 = []"
    using remove_client_trace by blast
  obtain evs2 where 2: "trace (broadcast_message e ?lm (length ?lm) (-1) (remove_client (int i) s)) =
      trace (remove_client (int i) s) @ evs2" "fcntls_of evs2 = []"
    using broadcast_message_trace by blast
  show ?thesis
    apply (rule exI [of _ "evs1 @ evs2"])
    using 1 2 by (simp add: handle_hangup_def Let_def)
qed

lemma handle_rename_ext:
  "\<exists>evs. trace (handle_rename e slot buf n s) = trace s @ evs \<and> fcntls_of evs = []"
proof -
  obtain m s1 where eq: "handle_rename e slot buf n s = broadcast_message e m (length m) (-1) s1"
    and t: "trace s1 = trace s"
    by (simp add: handle_rename_def Let_def split_beta)
  obtain evs where "trace (broadcast_message e m (length m) (-1) s1) = trace s1 @ evs" "fcntls_of evs = []"
    using broadcast_message_trace by blast
  then show ?thesis
    unfolding eq t by blast
qed

lemma handle_chat_ext:
  "\<exists>evs. trace (handle_chat e slot buf n s) = trace s @ evs \<and> fcntls_of evs = []"
proof -
  let ?b = "chat_msg (name (clients s ! slot)) buf n"
  let ?s1 = "printf (Chat (cstr (?b @ [NUL]))) s"
  obtain evs where "trace (broadcast_message e ?b (length ?b) (int slot) ?s1) = trace ?s1 @ evs"
    "fcntls_of evs = []"
    using broadcast_message_trace by blast
  then show ?thesis
    by (simp add: handle_chat_def Let_def)
qed

lemma handle_list_ext:
  "handle_list e slot s = Inr s' \<Longrightarrow> \<exists>evs. trace s' = trace s @ evs \<and> fcntls_of evs = []"
  by (auto simp add: handle_list_def Let_def split: if_splits)

lemma handle_read_cases:
  "handle_read e slot r s = Inr s' \<Longrightarrow>
   s' = handle_leave e slot s \<or>
   s' = handle_rename e slot (read_buf r @ [NUL]) (nat (read_ret r)) s \<or>
   handle_list e slot s = Inr s' \<or>
   s' = handle_chat e slot (read_buf r @ [NUL]) (nat (read_ret r)) s"
  unfolding handle_read_def Let_def by (simp split: if_splits)

lemma handle_read_ext:
  assumes "handle_read e slot r s = Inr s'"
  shows "\<exists>evs. trace s' = trace s @ evs \<and> fcntls_of evs = []"
  using handle_read_cases [OF assms]
proof (elim disjE)
  assume "s' = handle_leave e slot s"
  then show ?thesis using handle_leave_ext by simp
next
  assume "s' = handle_rename e slot (read_buf r @ [NUL]) (nat (read_ret r)) s"
  then show ?thesis using handle_rename_ext by simp
next
  assume "handle_list e slot s = Inr s'"
  then show ?thesis by (rule handle_list_ext)
next
  assume "s' = handle_chat e slot (read_buf r @ [NUL]) (nat (read_ret r)) s"
  then show ?thesis using handle_chat_ext by simp
qed

lemma handle_client_data_ext:
  assumes "handle_client_data e slot s = Inr s'"
  shows "\<exists>evs. trace s' = trace s @ EvRead (fd (clients s ! slot)) # evs \<and> fcntls_of evs = []"
proof -
  obtain evs where "trace s' = trace (emit (EvRead (fd (clients s ! slot))) s) @ evs" "fcntls_of evs = []"
    using assms handle_read_ext unfolding handle_client_data_unfold by blast
  then show ?thesis by simp
qed

subsection \<open>The size of the table\<close>

lemma handle_leave_length [simp]: "length (clients (handle_leave e slot s)) = length (clients s)"
  by (simp add: handle_leave_def Let_def)

lemma handle_hangup_length [simp]: "length (clients (handle_hangup e i s)) = length (clients s)"
  by (simp add: handle_hangup_def Let_def)

lemma handle_rename_length [simp]: "length (clients (handle_rename e slot buf n s)) = length (clients s)"
  by (simp add: handle_rename_def Let_def split_beta)

lemma handle_chat_length [simp]: "length (clients (handle_chat e slot buf n s)) = length (clients s)"
  by (simp add: handle_chat_def Let_def)





subsection \<open>No call of fcntl\<close>

lemma fcntls_emit: "fcntls_of (trace (emit ev s)) = fcntls_of (trace s) @ fcntls_of [ev]"
  by simp

lemma fcntls_broadcast [simp]:
  "fcntls_of (trace (broadcast_message e m l x s)) = fcntls_of (trace s)"
  using broadcast_message_trace [of e m l x s] by auto

lemma fcntls_hangup [simp]: "fcntls_of (trace (handle_hangup e i s)) = fcntls_of (trace s)"
  using handle_hangup_ext [of e i s] by auto

lemma fcntls_client_data:
  "handle_client_data e i s = Inr s' \<Longrightarrow> fcntls_of (trace s') = fcntls_of (trace s)"
  using handle_client_data_ext [of e i s s'] by auto

lemma serve_entry_cases:
  "serve_entry e p i s = Inr s' \<Longrightarrow>
   s' = s \<or> s' = handle_hangup e i s \<or> handle_client_data e i s = Inr s' \<or>
   (\<exists>s1. handle_client_data e i s = Inr s1 \<and> s' = handle_hangup e i s1)"
  unfolding serve_entry_def by (simp split: if_splits sum.splits)

lemma fcntls_serve_entry:
  assumes "serve_entry e p i s = Inr s'"
  shows "fcntls_of (trace s') = fcntls_of (trace s)"
  using serve_entry_cases [OF assms] by (auto dest: fcntls_client_data)

lemma fcntls_dispatch_clients:
  "dispatch_clients e fds nfds i idx s = Inr s' \<Longrightarrow> fcntls_of (trace s') = fcntls_of (trace s)"
proof (induction e fds nfds i idx s arbitrary: s' rule: dispatch_clients.induct)
  case (1 e fds nfds i idx s)
  show ?case
  proof (cases "i < MAX_CLIENTS \<and> idx < nfds")
    case False
    then have "dispatch_clients e fds nfds i idx s = Inr s"
      by (subst dispatch_clients.simps) (simp only: if_False)
    with "1.prems" show ?thesis by simp
  next
    case True
    note go = True
    show ?thesis
    proof (cases "active (clients s ! i)")
      case False
      then have "dispatch_clients e fds nfds i idx s = dispatch_clients e fds nfds (i + 1) idx s"
        using go by (subst dispatch_clients.simps) simp
      with "1.prems" "1.IH"(1) [OF go False] show ?thesis by simp
    next
      case True
      note act = this
      show ?thesis
      proof (cases "find_fd fds [idx..<nfds] (fd (clients s ! i))")
        case None
        then have "dispatch_clients e fds nfds i idx s = dispatch_clients e fds nfds (i + 1) idx s"
          using go act by (subst dispatch_clients.simps) simp
        moreover have "\<not> \<not> active (clients s ! i)" using act by simp
        ultimately show ?thesis
          using "1.prems" "1.IH"(2) [OF go _ None] by simp
      next
        case (Some j)
        show ?thesis
        proof (cases "serve_entry e (fds ! j) i s")
          case (Inl f)
          then have "dispatch_clients e fds nfds i idx s = Inl f"
            using go act Some by (subst dispatch_clients.simps) simp
          with "1.prems" show ?thesis by simp
        next
          case (Inr s2)
          then have "dispatch_clients e fds nfds i idx s = dispatch_clients e fds nfds (i + 1) (idx + 1) s2"
            using go act Some by (subst dispatch_clients.simps) simp
          moreover have "\<not> \<not> active (clients s ! i)" using act by simp
          ultimately have "fcntls_of (trace s') = fcntls_of (trace s2)"
            using "1.prems" "1.IH"(3) [OF go _ Some Inr] by simp
          then show ?thesis
            using fcntls_serve_entry [OF Inr] by simp
        qed
      qed
    qed
  qed
qed

lemma fcntls_new_connection [simp]:
  "fcntls_of (trace (handle_new_connection e s)) = fcntls_of (trace s)"
  by (simp add: handle_new_connection_def sys_accept_def sys_write_def Let_def split_beta)

lemma net_poll_trace: "fcntls_of (trace (snd (snd (net_poll e fds s)))) = fcntls_of (trace s)"
  by (simp add: net_poll_def Let_def split_beta)

lemma fcntls_main_cycle:
  assumes "main_cycle e s = Inr (go_on, s')"
  shows "fcntls_of (trace s') = fcntls_of (trace s)"
proof -
  let ?fds0 = "build_poll_array s"
  let ?p = "net_poll e ?fds0 s"
  let ?s1 = "snd (snd ?p)"
  let ?s2 = "if revents (fst (snd ?p) ! 0) AND POLLIN \<noteq> 0 then handle_new_connection e ?s1 else ?s1"
  have s2: "fcntls_of (trace ?s2) = fcntls_of (trace s)"
    by (simp add: net_poll_trace)
  have "s' = printf PollError ?s1 \<or> s' = ?s1 \<or> s' = printf ServerSockError ?s2 \<or>
        dispatch_clients e (fst (snd ?p)) (length ?fds0) 0 1 ?s2 = Inr s'"
    using assms unfolding main_cycle_def Let_def split_beta
    by (auto split: if_splits sum.splits simp add: map_sum_def)
  then show ?thesis
    using s2 by (auto simp add: net_poll_trace dest!: fcntls_dispatch_clients)
qed

lemma fcntls_startup: "fcntls_of (trace (fst (startup e))) = []"
  by (simp add: startup_def Let_def start_state_def init_clients_def)

lemma fcntls_reachable: "reachable e s \<Longrightarrow> fcntls_of (trace s) = []"
proof (induction rule: reachable.induct)
  case (reach_start s)
  then show ?case
    using fcntls_startup [of e] by simp
next
  case (reach_cycle s s')
  then show ?case
    using fcntls_main_cycle by simp
qed

lemma flag_step_quiet: "fcntls_of [ev] = [] \<Longrightarrow> \<not> flag_step h False ev"
  by (cases ev) (simp_all add: flag_step_def)

lemma foldl_flag_step: "fcntls_of t = [] \<Longrightarrow> \<not> foldl (flag_step h) False t"
proof (induction t)
  case Nil
  then show ?case by simp
next
  case (Cons ev t)
  have "fcntls_of [ev] = []" "fcntls_of t = []"
    using Cons.prems by (cases ev; simp)+
  then show ?case
    using Cons.IH flag_step_quiet [of ev h] by simp
qed

lemma no_fcntl_blocking: "fcntls_of t = [] \<Longrightarrow> \<not> nonblocking t h"
  by (simp add: nonblocking_def foldl_flag_step)

subsection \<open>A session that is readable and hung up\<close>




subsection \<open>The blocking mode of the handles\<close>

lemma startup_boot: "startup boot_env = (fst (startup boot_env), None)"
proof -
  have "snd (startup boot_env) = None"
    by code_simp
  then show ?thesis
    by (simp add: prod_eq_iff)
qed

lemma first_cycle_boot: "main_cycle boot_env (fst (startup boot_env)) = Inr (True, first_session)"
  by code_simp

text \<open>
  C8 as stated says that the listening handle and every accepted handle are in
  non-blocking mode. After the start of the program and one accepted connection the
  server holds the listening handle 3 and a session on handle 4; it has made no call
  that changes a mode, and both handles are in the mode they were created in, blocking.
\<close>

theorem first_session_handles_blocking:
  "reachable boot_env first_session \<and>
   server_sock first_session = 3 \<and>
   active (clients first_session ! 0) \<and> fd (clients first_session ! 0) = 4 \<and>
   trace first_session =
     [EvLog Banner, EvLog Binding, EvSocket, EvBind 3, EvListen 3 14, EvLog Listening,
      EvPoll [3], EvAccept 3, EvLog (NewClient 0 4),
      EvWrite 4 ''Welcome to xv6 Chat Server! Your name is: user0\<newline>''] \<and>
   \<not> nonblocking (trace first_session) 3 \<and>
   \<not> nonblocking (trace first_session) 4"
proof -
  have "reachable boot_env (fst (startup boot_env))"
    using startup_boot by (rule reach_start)
  then have "reachable boot_env first_session"
    using first_cycle_boot by (rule reach_cycle)
  moreover have "server_sock first_session = 3 \<and>
   active (clients first_session ! 0) \<and> fd (clients first_session ! 0) = 4 \<and>
   trace first_session =
     [EvLog Banner, EvLog Binding, EvSocket, EvBind 3, EvListen 3 14, EvLog Listening,
      EvPoll [3], EvAccept 3, EvLog (NewClient 0 4),
      EvWrite 4 ''Welcome to xv6 Chat Server! Your name is: user0\<newline>''] \<and>
   \<not> nonblocking (trace first_session) 3 \<and>
   \<not> nonblocking (trace first_session) 4"
    by code_simp
  ultimately show ?thesis by blast
qed

text \<open>
  C8, as the code has it: in every state in which the loop of \<open>main\<close> starts a turn, the
  program has never called \<open>fcntl\<close>, so that no handle, neither the listening one nor
  that of a session, has left the blocking mode it was created in.
\<close>

theorem handles_stay_blocking:
  assumes "reachable e s"
  shows "fcntls_of (trace s) = [] \<and> \<not> nonblocking (trace s) h"
  using fcntls_reachable [OF assms] by (simp add: no_fcntl_blocking)

theorem handles_stay_blocking_witness:
  "reachable boot_env (fst (startup boot_env)) \<and>
   fcntls_of (trace (fst (startup boot_env))) = [] \<and>
   \<not> nonblocking (trace (fst (startup boot_env))) (server_sock (fst (startup boot_env)))"
proof -
  have r: "reachable boot_env (fst (startup boot_env))"
    using startup_boot by (rule reach_start)
  show ?thesis
    using handles_stay_blocking [OF r, of "server_sock (fst (startup boot_env))"] r by simp
qed

subsection \<open>The buffer of the list reply\<close>

text \<open>
  C10: the reply to \<open>/list\<close> is assembled in an array of 512 bytes without a check of
  the index. With fourteen sessions that all carry a nickname of 31 bytes the header
  takes 17 bytes, each row 3 + 31 + 1 and the row of the requester 6 more: the index
  is 513 when the terminating NUL is stored, which is behind the end of the array, as
  is the line feed stored before it at index 512.
\<close>

theorem list_msg_overflow:
  "length (list_msg long_names 0) = 513 \<and>
   \<not> list_msg_in_bounds long_names 0 \<and>
   handle_client_data (const_env (RData ''/list\<newline>'') 1 6 []) 0 long_names = Inl (Overflow 513 512)"
  by code_simp

end
